theory Spec2Isabelle
  imports Main "HOL-Library.Sublist"
begin

section \<open>Data model (src/app/models/task.model.ts)\<close>

text \<open>
  A \<open>Date\<close> is represented by its time value, the number of milliseconds since the epoch.
\<close>

type_synonym date = int

text \<open>
  \<^verbatim>\<open>export enum TaskPriority { LOW = 'low', MEDIUM = 'medium', HIGH = 'high' }\<close>
  A string enum: at run time a member is its string, which is what the truthiness test
  \<^verbatim>\<open>!filter.priority\<close> and the comparison \<^verbatim>\<open>===\<close> look at.
\<close>

datatype TaskPriority = LOW | MEDIUM | HIGH

fun priority_value :: "TaskPriority \<Rightarrow> string" where
  "priority_value LOW = ''low''"
| "priority_value MEDIUM = ''medium''"
| "priority_value HIGH = ''high''"

text \<open>
  \<^verbatim>\<open>Omit<Task, 'id' | 'createdAt'>\<close> is the record of the five caller-supplied fields;
  \<^verbatim>\<open>Task\<close> extends it with the two fields the store assigns. An optional field
  (\<^verbatim>\<open>dueDate?: Date\<close>) reads as \<open>None\<close> when it is absent or \<^verbatim>\<open>undefined\<close>.
\<close>

record TaskDraft =
  title :: string
  description :: string
  completed :: bool
  priority :: TaskPriority
  dueDate :: "date option"

record Task = TaskDraft +
  task_id :: string
  createdAt :: date

text \<open>
  \<^verbatim>\<open>Partial<Task>\<close>: every key of \<^verbatim>\<open>Task\<close> may be missing. \<open>None\<close> is a missing key,
  \<open>Some v\<close> a key that is present with value \<open>v\<close>; for the optional \<^verbatim>\<open>dueDate\<close> the
  value itself may be \<^verbatim>\<open>undefined\<close>, hence \<open>Some None\<close>. Values are those of the declared
  field types.
\<close>

record PartialTask =
  id_u :: "string option"
  title_u :: "string option"
  description_u :: "string option"
  completed_u :: "bool option"
  priority_u :: "TaskPriority option"
  dueDate_u :: "date option option"
  createdAt_u :: "date option"

record TaskFilter =
  showCompleted :: bool
  priority_f :: "TaskPriority option"
  searchTerm :: string

text \<open>\<^verbatim>\<open>Partial<TaskFilter>\<close>, with the same reading of \<open>None\<close> and \<open>Some\<close>.\<close>

record PartialTaskFilter =
  showCompleted_u :: "bool option"
  priority_fu :: "TaskPriority option option"
  searchTerm_u :: "string option"

text \<open>The partial record with no key at all, \<^verbatim>\<open>{}\<close>.\<close>

definition no_updates :: PartialTask where
  "no_updates = \<lparr>id_u = None, title_u = None, description_u = None, completed_u = None,
     priority_u = None, dueDate_u = None, createdAt_u = None\<rparr>"

definition no_filter_updates :: PartialTaskFilter where
  "no_filter_updates = \<lparr>showCompleted_u = None, priority_fu = None, searchTerm_u = None\<rparr>"

section \<open>JavaScript primitives used by the store\<close>

text \<open>
  Object spread \<^verbatim>\<open>{ ...a, ...b }\<close>, one property at a time: the property of \<open>b\<close> wins when
  \<open>b\<close> has the key, otherwise the one of \<open>a\<close> stays.
\<close>

fun spread :: "'a \<Rightarrow> 'a option \<Rightarrow> 'a" where
  "spread old None = old"
| "spread old (Some v) = v"

text \<open>\<^verbatim>\<open>!s\<close> for a string: only the empty string is falsy.\<close>

definition not_string :: "string \<Rightarrow> bool" where
  "not_string s = (s = [])"

text \<open>\<^verbatim>\<open>!filter.priority\<close>: \<^verbatim>\<open>undefined\<close> is falsy, an enum member is judged as its string.\<close>

fun not_priority :: "TaskPriority option \<Rightarrow> bool" where
  "not_priority None = True"
| "not_priority (Some p) = not_string (priority_value p)"

text \<open>
  \<^verbatim>\<open>task.priority === filter.priority\<close>: strict equality of the two run-time values;
  \<^verbatim>\<open>undefined\<close> equals no string.
\<close>

fun priority_strict_eq :: "TaskPriority \<Rightarrow> TaskPriority option \<Rightarrow> bool" where
  "priority_strict_eq p None = False"
| "priority_strict_eq p (Some q) = (priority_value p = priority_value q)"

text \<open>
  \<^verbatim>\<open>String.prototype.includes\<close>: whether the needle occurs in the string at some
  position; the empty needle occurs in every string.
\<close>

fun string_includes :: "string \<Rightarrow> string \<Rightarrow> bool" where
  "string_includes [] needle = (needle = [])"
| "string_includes (c # cs) needle = (prefix needle (c # cs) \<or> string_includes cs needle)"

text \<open>
  \<^verbatim>\<open>String.prototype.toLowerCase\<close> belongs to the language, not to the repository: the
  store's view takes it as the parameter \<open>toLowerCase\<close>. For evaluating the view on concrete
  strings, \<open>ascii_toLowerCase\<close> is the conversion on the letters A to Z.
\<close>

definition ascii_lower :: "char \<Rightarrow> char" where
  "ascii_lower c =
     (case map_of (zip ''ABCDEFGHIJKLMNOPQRSTUVWXYZ'' ''abcdefghijklmnopqrstuvwxyz'') c of
        None \<Rightarrow> c
      | Some l \<Rightarrow> l)"

definition ascii_toLowerCase :: "string \<Rightarrow> string" where
  "ascii_toLowerCase s = map ascii_lower s"

section \<open>The store (src/app/services/task.service.ts)\<close>

text \<open>The two signals \<^verbatim>\<open>_tasks\<close> and \<^verbatim>\<open>_filter\<close> are the whole state of the service.\<close>

record TaskService =
  tasks_signal :: "Task list"
  filter_signal :: TaskFilter

text \<open>
  The state after construction. The initialiser reads the clock three times
  (\<^verbatim>\<open>new Date()\<close>, \<^verbatim>\<open>Date.now()\<close>, \<^verbatim>\<open>Date.now()\<close>); the three readings are parameters.
\<close>

definition initial :: "date \<Rightarrow> date \<Rightarrow> date \<Rightarrow> TaskService" where
  "initial now0 now1 now2 =
     \<lparr>tasks_signal =
        [\<lparr>title = ''Learn Angular 16 Signals'',
          description = ''Understand the new signals API'',
          completed = False,
          priority = HIGH,
          dueDate = Some (now1 + 7 * 24 * 60 * 60 * 1000),
          task_id = ''1'',
          createdAt = now0\<rparr>,
         \<lparr>title = ''Implement Standalone Components'',
          description = ''Create components without NgModule'',
          completed = True,
          priority = MEDIUM,
          dueDate = None,
          task_id = ''2'',
          createdAt = now2 - 24 * 60 * 60 * 1000\<rparr>],
      filter_signal = \<lparr>showCompleted = True, priority_f = None, searchTerm = ''''\<rparr>\<rparr>"

subsection \<open>Derived views\<close>

definition tasks :: "TaskService \<Rightarrow> Task list" where
  "tasks s = tasks_signal s"

text \<open>The callback of \<^verbatim>\<open>tasks.filter(...)\<close> in \<^verbatim>\<open>filteredTasks\<close>.\<close>

definition matchesCompleted :: "TaskFilter \<Rightarrow> Task \<Rightarrow> bool" where
  "matchesCompleted f t = (showCompleted f \<or> \<not> completed t)"

definition matchesPriority :: "TaskFilter \<Rightarrow> Task \<Rightarrow> bool" where
  "matchesPriority f t = (not_priority (priority_f f) \<or> priority_strict_eq (priority t) (priority_f f))"

definition matchesSearch :: "(string \<Rightarrow> string) \<Rightarrow> TaskFilter \<Rightarrow> Task \<Rightarrow> bool" where
  "matchesSearch toLowerCase f t =
     (not_string (searchTerm f) \<or>
      string_includes (toLowerCase (title t)) (toLowerCase (searchTerm f)) \<or>
      string_includes (toLowerCase (description t)) (toLowerCase (searchTerm f)))"

definition filteredTasks :: "(string \<Rightarrow> string) \<Rightarrow> TaskService \<Rightarrow> Task list" where
  "filteredTasks toLowerCase s =
     filter (\<lambda>t. matchesCompleted (filter_signal s) t \<and>
                 matchesPriority (filter_signal s) t \<and>
                 matchesSearch toLowerCase (filter_signal s) t)
       (tasks_signal s)"

definition completedCount :: "TaskService \<Rightarrow> nat" where
  "completedCount s = length (filter (\<lambda>t. completed t) (tasks_signal s))"

definition totalCount :: "TaskService \<Rightarrow> nat" where
  "totalCount s = length (tasks_signal s)"

subsection \<open>Operations\<close>

text \<open>
  \<^verbatim>\<open>addTask\<close>: \<open>uuid\<close> is what \<^verbatim>\<open>crypto.randomUUID()\<close> returned and \<open>now\<close> the time value
  of \<^verbatim>\<open>new Date()\<close>. Both come after the spread of the draft in the object literal.
\<close>

definition newTask :: "string \<Rightarrow> date \<Rightarrow> TaskDraft \<Rightarrow> Task" where
  "newTask uuid now task =
     \<lparr>title = title task, description = description task, completed = completed task,
      priority = priority task, dueDate = dueDate task,
      task_id = uuid, createdAt = now\<rparr>"

definition addTask :: "string \<Rightarrow> date \<Rightarrow> TaskDraft \<Rightarrow> TaskService \<Rightarrow> TaskService" where
  "addTask uuid now task s = s\<lparr>tasks_signal := tasks_signal s @ [newTask uuid now task]\<rparr>"

text \<open>\<^verbatim>\<open>{ ...task, ...updates }\<close>: every key of \<^verbatim>\<open>updates\<close> overrides, \<^verbatim>\<open>id\<close> included.\<close>

definition merge_task :: "Task \<Rightarrow> PartialTask \<Rightarrow> Task" where
  "merge_task t u =
     \<lparr>title = spread (title t) (title_u u),
      description = spread (description t) (description_u u),
      completed = spread (completed t) (completed_u u),
      priority = spread (priority t) (priority_u u),
      dueDate = spread (dueDate t) (dueDate_u u),
      task_id = spread (task_id t) (id_u u),
      createdAt = spread (createdAt t) (createdAt_u u)\<rparr>"

definition updateTask :: "string \<Rightarrow> PartialTask \<Rightarrow> TaskService \<Rightarrow> TaskService" where
  "updateTask i updates s =
     s\<lparr>tasks_signal := map (\<lambda>t. if task_id t = i then merge_task t updates else t) (tasks_signal s)\<rparr>"

definition deleteTask :: "string \<Rightarrow> TaskService \<Rightarrow> TaskService" where
  "deleteTask i s = s\<lparr>tasks_signal := filter (\<lambda>t. task_id t \<noteq> i) (tasks_signal s)\<rparr>"

definition toggleTask :: "string \<Rightarrow> TaskService \<Rightarrow> TaskService" where
  "toggleTask i s =
     s\<lparr>tasks_signal :=
         map (\<lambda>t. if task_id t = i then t\<lparr>completed := \<not> completed t\<rparr> else t) (tasks_signal s)\<rparr>"

definition merge_filter :: "TaskFilter \<Rightarrow> PartialTaskFilter \<Rightarrow> TaskFilter" where
  "merge_filter current f =
     \<lparr>showCompleted = spread (showCompleted current) (showCompleted_u f),
      priority_f = spread (priority_f current) (priority_fu f),
      searchTerm = spread (searchTerm current) (searchTerm_u f)\<rparr>"

definition updateFilter :: "PartialTaskFilter \<Rightarrow> TaskService \<Rightarrow> TaskService" where
  "updateFilter f s = s\<lparr>filter_signal := merge_filter (filter_signal s) f\<rparr>"

definition getFilter :: "TaskService \<Rightarrow> TaskFilter" where
  "getFilter s = filter_signal s"

subsection \<open>Sequences of calls\<close>

text \<open>
  One call of a mutating method, with what the environment handed to it: for \<open>AddTask\<close>
  the value of \<^verbatim>\<open>crypto.randomUUID()\<close> and the clock reading.
\<close>

datatype operation =
    AddTask string date TaskDraft
  | UpdateTask string PartialTask
  | DeleteTask string
  | ToggleTask string
  | UpdateFilter PartialTaskFilter

fun perform :: "operation \<Rightarrow> TaskService \<Rightarrow> TaskService" where
  "perform (AddTask uuid now task) s = addTask uuid now task s"
| "perform (UpdateTask i updates) s = updateTask i updates s"
| "perform (DeleteTask i) s = deleteTask i s"
| "perform (ToggleTask i) s = toggleTask i s"
| "perform (UpdateFilter f) s = updateFilter f s"

fun perform_all :: "operation list \<Rightarrow> TaskService \<Rightarrow> TaskService" where
  "perform_all [] s = s"
| "perform_all (c # cs) s = perform_all cs (perform c s)"

text \<open>A run of \<^verbatim>\<open>addTask\<close> calls, each with its generated id, clock reading and draft.\<close>

fun addTasks :: "(string \<times> date \<times> TaskDraft) list \<Rightarrow> TaskService \<Rightarrow> TaskService" where
  "addTasks [] s = s"
| "addTasks ((uuid, now, task) # cs) s = addTasks cs (addTask uuid now task s)"

text \<open>A run of \<^verbatim>\<open>updateFilter\<close> calls.\<close>

fun updateFilters :: "PartialTaskFilter list \<Rightarrow> TaskService \<Rightarrow> TaskService" where
  "updateFilters [] s = s"
| "updateFilters (f # fs) s = updateFilters fs (updateFilter f s)"

subsection \<open>The id generator\<close>

text \<open>
  Modelled from the spec: \<^verbatim>\<open>crypto.randomUUID()\<close> is a function of the platform, absent
  from the sources. The specification has \<^verbatim>\<open>addTask\<close> generate "a fresh unique id". The
  model numbers the draws of a session and gives draw \<open>k\<close> the hexadecimal numeral of \<open>k\<close>,
  padded with zeros to the 32 digits of a UUID, so that two draws never return the same
  string. Nothing else about the returned string is used.
\<close>

definition hex_digit :: "nat \<Rightarrow> char" where
  "hex_digit d = ''0123456789abcdef'' ! d"

fun hex :: "nat \<Rightarrow> string" where
  "hex n = (if n < 16 then [hex_digit n] else hex (n div 16) @ [hex_digit (n mod 16)])"

declare hex.simps [simp del]

definition randomUUID :: "nat \<Rightarrow> string" where
  "randomUUID k = replicate (32 - length (hex k)) (CHR ''0'') @ hex k"

text \<open>Reading a numeral back, to tell generated ids apart.\<close>

definition digit_value :: "char \<Rightarrow> nat" where
  "digit_value c = length (takeWhile (\<lambda>x. x \<noteq> c) ''0123456789abcdef'')"

definition hex_value :: "string \<Rightarrow> nat" where
  "hex_value cs = foldl (\<lambda>a c. 16 * a + digit_value c) 0 cs"

text \<open>
  A run of \<^verbatim>\<open>addTask\<close> calls in a session in which \<open>k\<close> ids have been drawn before: each
  call draws the next id, and is given its clock reading and draft.
\<close>

fun addTasks_session :: "nat \<Rightarrow> (date \<times> TaskDraft) list \<Rightarrow> TaskService \<Rightarrow> TaskService" where
  "addTasks_session k [] s = s"
| "addTasks_session k ((now, task) # ds) s =
     addTasks_session (Suc k) ds (addTask (randomUUID k) now task s)"

subsection \<open>The caller in the task list component\<close>

text \<open>
  \<^verbatim>\<open>this.selectedPriority || undefined\<close>, with \<^verbatim>\<open>selectedPriority: TaskPriority | null\<close>
  (\<open>None\<close> is \<^verbatim>\<open>null\<close> on the left and \<^verbatim>\<open>undefined\<close> on the right).
\<close>

definition or_undefined :: "TaskPriority option \<Rightarrow> TaskPriority option" where
  "or_undefined p = (if not_priority p then None else p)"

text \<open>
  \<^verbatim>\<open>TaskListComponent.updateFilter\<close>: the component passes all three keys, reading its
  fields \<^verbatim>\<open>searchTerm\<close>, \<^verbatim>\<open>showCompleted\<close> and \<^verbatim>\<open>selectedPriority\<close>.
\<close>

definition TaskListComponent_updateFilter ::
  "string \<Rightarrow> bool \<Rightarrow> TaskPriority option \<Rightarrow> TaskService \<Rightarrow> TaskService" where
  "TaskListComponent_updateFilter searchTerm_c showCompleted_c selectedPriority s =
     updateFilter \<lparr>showCompleted_u = Some showCompleted_c,
                   priority_fu = Some (or_undefined selectedPriority),
                   searchTerm_u = Some searchTerm_c\<rparr> s"

section \<open>Properties the specification names\<close>

text \<open>No two tasks of the store share an id.\<close>

definition ids_unique :: "TaskService \<Rightarrow> bool" where
  "ids_unique s = distinct (map task_id (tasks_signal s))"

text \<open>
  The calls under which \<open>ids_unique\<close> is kept: an \<open>AddTask\<close> whose generated id no task
  holds yet, and an \<open>UpdateTask\<close> whose partial record has no \<^verbatim>\<open>id\<close> key or repeats the id
  it is called with.
\<close>

fun keeps_ids :: "TaskService \<Rightarrow> operation \<Rightarrow> bool" where
  "keeps_ids s (AddTask uuid now task) = (uuid \<notin> set (map task_id (tasks_signal s)))"
| "keeps_ids s (UpdateTask i updates) = (id_u updates = None \<or> id_u updates = Some i)"
| "keeps_ids s (DeleteTask i) = True"
| "keeps_ids s (ToggleTask i) = True"
| "keeps_ids s (UpdateFilter f) = True"

fun keeps_ids_all :: "TaskService \<Rightarrow> operation list \<Rightarrow> bool" where
  "keeps_ids_all s [] = True"
| "keeps_ids_all s (c # cs) = (keeps_ids s c \<and> keeps_ids_all (perform c s) cs)"

text \<open>
  The three clauses of the filtered view in the specification's words: the priority
  constraint is absent or equal to the task's priority; the search term is empty or occurs,
  after case conversion, as a substring of the converted title or description.
\<close>

definition spec_matchesCompleted :: "TaskFilter \<Rightarrow> Task \<Rightarrow> bool" where
  "spec_matchesCompleted f t = (showCompleted f \<or> \<not> completed t)"

definition spec_matchesPriority :: "TaskFilter \<Rightarrow> Task \<Rightarrow> bool" where
  "spec_matchesPriority f t = (priority_f f = None \<or> priority_f f = Some (priority t))"

definition spec_matchesSearch :: "(string \<Rightarrow> string) \<Rightarrow> TaskFilter \<Rightarrow> Task \<Rightarrow> bool" where
  "spec_matchesSearch fold_case f t =
     (searchTerm f = [] \<or>
      sublist (fold_case (searchTerm f)) (fold_case (title t)) \<or>
      sublist (fold_case (searchTerm f)) (fold_case (description t)))"

definition spec_matches :: "(string \<Rightarrow> string) \<Rightarrow> TaskFilter \<Rightarrow> Task \<Rightarrow> bool" where
  "spec_matches fold_case f t =
     (spec_matchesCompleted f t \<and> spec_matchesPriority f t \<and> spec_matchesSearch fold_case f t)"

section \<open>Unknown ids\<close>

lemma map_unknown_id:
  assumes "\<forall>t \<in> set ts. task_id t \<noteq> i"
  shows "map (\<lambda>t. if task_id t = i then g t else t) ts = ts"
  using assms by (induction ts) auto

lemma filter_unknown_id:
  assumes "\<forall>t \<in> set ts. task_id t \<noteq> i"
  shows "filter (\<lambda>t. task_id t \<noteq> i) ts = ts"
  using assms by (induction ts) auto

text \<open>
  Claim C5. When no task of the store holds the id, \<open>updateTask\<close>, \<open>deleteTask\<close> and
  \<open>toggleTask\<close> return the store they were given: the task sequence and the filter are the
  same, and so are the four derived views. The operations are total functions with no error
  branch, as the source has no \<^verbatim>\<open>throw\<close> and reads no property that could be missing.
\<close>

theorem unknown_id_noop:
  assumes "\<forall>t \<in> set (tasks_signal s). task_id t \<noteq> i"
  shows "updateTask i updates s = s \<and> deleteTask i s = s \<and> toggleTask i s = s
    \<and> (\<forall>s' \<in> {updateTask i updates s, deleteTask i s, toggleTask i s}.
         tasks s' = tasks s \<and> filteredTasks lc s' = filteredTasks lc s
         \<and> totalCount s' = totalCount s \<and> completedCount s' = completedCount s
         \<and> getFilter s' = getFilter s)"
proof -
  have u: "updateTask i updates s = s"
    by (simp add: updateTask_def map_unknown_id [OF assms])
  have d: "deleteTask i s = s"
    by (simp add: deleteTask_def filter_unknown_id [OF assms])
  have t: "toggleTask i s = s"
    by (simp add: toggleTask_def map_unknown_id [OF assms])
  show ?thesis by (simp add: u d t)
qed

theorem unknown_id_noop_witness:
  "updateTask ''7'' (no_updates\<lparr>title_u := Some ''X''\<rparr>) (initial 0 0 0) = initial 0 0 0
   \<and> deleteTask ''7'' (initial 0 0 0) = initial 0 0 0
   \<and> toggleTask ''7'' (initial 0 0 0) = initial 0 0 0"
  using unknown_id_noop [of "initial 0 0 0" "''7''" "no_updates\<lparr>title_u := Some ''X''\<rparr>"]
  by (simp add: initial_def)


section \<open>The view and the specification's predicate\<close>

lemma string_includes_sublist: "string_includes hay needle \<longleftrightarrow> sublist needle hay"
  by (induction hay) (simp_all add: sublist_Cons_right)

lemma priority_value_inj: "priority_value p = priority_value q \<longleftrightarrow> p = q"
  by (cases p; cases q) simp_all

lemma not_priority_absent: "not_priority p \<longleftrightarrow> p = None"
proof (cases p)
  case None
  then show ?thesis by simp
next
  case (Some q)
  then show ?thesis by (cases q) (simp_all add: not_string_def)
qed

lemma priority_strict_eq_Some: "priority_strict_eq p q \<longleftrightarrow> q = Some p"
  by (cases q) (auto simp: priority_value_inj)

lemma matches_spec:
  "matchesCompleted f t \<and> matchesPriority f t \<and> matchesSearch lc f t \<longleftrightarrow> spec_matches lc f t"
  by (simp add: matchesCompleted_def matchesPriority_def matchesSearch_def spec_matches_def
      spec_matchesCompleted_def spec_matchesPriority_def spec_matchesSearch_def
      not_priority_absent priority_strict_eq_Some string_includes_sublist not_string_def)

text \<open>
  Claim C2. With \<open>lc\<close> the case conversion the code applies (\<^verbatim>\<open>toLowerCase\<close>), the filtered
  view is the task sequence filtered by the specification's conjunction of the three
  clauses: it is a subsequence of \<open>tasks\<close>, in the same relative order, and a task is in it
  exactly when it is held by the store and satisfies all three clauses.
\<close>

theorem filteredTasks_spec:
  "filteredTasks lc s = filter (spec_matches lc (getFilter s)) (tasks s)
   \<and> subseq (filteredTasks lc s) (tasks s)
   \<and> set (filteredTasks lc s) = {t \<in> set (tasks s). spec_matches lc (getFilter s) t}"
proof -
  have eq: "filteredTasks lc s = filter (spec_matches lc (getFilter s)) (tasks s)"
    by (simp add: filteredTasks_def getFilter_def tasks_def matches_spec)
  show ?thesis
    unfolding eq by simp
qed

lemma ascii_lower_simps:
  "ascii_toLowerCase ''Learn Angular 16 Signals'' = ''learn angular 16 signals''"
  "ascii_toLowerCase ''Understand the new signals API'' = ''understand the new signals api''"
  "ascii_toLowerCase ''Implement Standalone Components'' = ''implement standalone components''"
  "ascii_toLowerCase ''Create components without NgModule'' = ''create components without ngmodule''"
  "ascii_toLowerCase ''SIGNALS'' = ''signals''"
  by (simp_all add: ascii_toLowerCase_def ascii_lower_def)

theorem filteredTasks_spec_witness:
  "map task_id (filteredTasks ascii_toLowerCase
      (updateFilter (no_filter_updates\<lparr>searchTerm_u := Some ''SIGNALS''\<rparr>) (initial 0 0 0))) = [''1'']
   \<and> map task_id (filteredTasks ascii_toLowerCase
      (updateFilter (no_filter_updates\<lparr>showCompleted_u := Some False\<rparr>) (initial 0 0 0))) = [''1'']
   \<and> map task_id (filteredTasks ascii_toLowerCase
      (updateFilter (no_filter_updates\<lparr>priority_fu := Some (Some MEDIUM)\<rparr>) (initial 0 0 0))) = [''2'']"
  using
    filteredTasks_spec [of ascii_toLowerCase
      "updateFilter (no_filter_updates\<lparr>searchTerm_u := Some ''SIGNALS''\<rparr>) (initial 0 0 0)"]
    filteredTasks_spec [of ascii_toLowerCase
      "updateFilter (no_filter_updates\<lparr>showCompleted_u := Some False\<rparr>) (initial 0 0 0)"]
    filteredTasks_spec [of ascii_toLowerCase
      "updateFilter (no_filter_updates\<lparr>priority_fu := Some (Some MEDIUM)\<rparr>) (initial 0 0 0)"]
  by (simp add: initial_def updateFilter_def merge_filter_def no_filter_updates_def
      getFilter_def tasks_def spec_matches_def spec_matchesCompleted_def
      spec_matchesPriority_def spec_matchesSearch_def ascii_lower_simps sublist_code)

section \<open>Adding a task\<close>

text \<open>
  Claim C3. \<open>addTask\<close> appends one task at the end: the sequence grows by one, the tasks
  held before are its first elements, unchanged and in their order, and the last element
  has the draft's title, description, completed flag, priority and due date, the id that
  \<^verbatim>\<open>crypto.randomUUID()\<close> generated and the clock reading as \<open>createdAt\<close>. The filter
  is not touched.
\<close>

theorem addTask_appends:
  "length (tasks (addTask uuid now task s)) = Suc (length (tasks s))
   \<and> take (length (tasks s)) (tasks (addTask uuid now task s)) = tasks s
   \<and> butlast (tasks (addTask uuid now task s)) = tasks s
   \<and> title (last (tasks (addTask uuid now task s))) = title task
   \<and> description (last (tasks (addTask uuid now task s))) = description task
   \<and> completed (last (tasks (addTask uuid now task s))) = completed task
   \<and> priority (last (tasks (addTask uuid now task s))) = priority task
   \<and> dueDate (last (tasks (addTask uuid now task s))) = dueDate task
   \<and> task_id (last (tasks (addTask uuid now task s))) = uuid
   \<and> createdAt (last (tasks (addTask uuid now task s))) = now
   \<and> getFilter (addTask uuid now task s) = getFilter s"
  by (simp add: addTask_def tasks_def newTask_def getFilter_def)

theorem addTask_appends_witness:
  "map task_id (tasks (addTask ''6f1c2a50-0b7e-4c1d-9a53-2f8e4d7b9c10'' 9
      \<lparr>title = ''Test Task'', description = ''Test Description'', completed = False,
       priority = LOW, dueDate = None\<rparr> (initial 3 4 5)))
     = [''1'', ''2'', ''6f1c2a50-0b7e-4c1d-9a53-2f8e4d7b9c10'']
   \<and> last (tasks (addTask ''6f1c2a50-0b7e-4c1d-9a53-2f8e4d7b9c10'' 9
      \<lparr>title = ''Test Task'', description = ''Test Description'', completed = False,
       priority = LOW, dueDate = None\<rparr> (initial 3 4 5)))
     = \<lparr>title = ''Test Task'', description = ''Test Description'', completed = False,
        priority = LOW, dueDate = None,
        task_id = ''6f1c2a50-0b7e-4c1d-9a53-2f8e4d7b9c10'', createdAt = 9\<rparr>"
  using addTask_appends [of "''6f1c2a50-0b7e-4c1d-9a53-2f8e4d7b9c10''" 9
      "\<lparr>title = ''Test Task'', description = ''Test Description'', completed = False,
       priority = LOW, dueDate = None\<rparr>" "initial 3 4 5"]
  by (simp add: initial_def tasks_def addTask_def newTask_def)

section \<open>Updating a task\<close>

lemma updateTask_nth:
  assumes "n < length (tasks_signal s)"
  shows "tasks (updateTask i updates s) ! n =
    (if task_id (tasks_signal s ! n) = i then merge_task (tasks_signal s ! n) updates
     else tasks_signal s ! n)"
  using assms by (simp add: updateTask_def tasks_def)

lemma toggleTask_nth:
  assumes "n < length (tasks_signal s)"
  shows "tasks (toggleTask i s) ! n =
    (if task_id (tasks_signal s ! n) = i
     then (tasks_signal s ! n)\<lparr>completed := \<not> completed (tasks_signal s ! n)\<rparr>
     else tasks_signal s ! n)"
  using assms by (simp add: toggleTask_def tasks_def)

text \<open>
  Claim C1, as the code has it. For the task at position \<open>n\<close> whose id is the argument,
  each of the seven fields after \<open>updateTask\<close> is the value the partial record supplies
  for it, and the prior value when the partial record does not name the field. So a field
  that is not named keeps its value, \<open>id\<close> and \<open>createdAt\<close> included; a supplied \<open>id\<close> or
  \<open>createdAt\<close> replaces the old one like any other field.
\<close>

theorem updateTask_fields:
  assumes "n < length (tasks s)" and "task_id (tasks s ! n) = i"
  shows "task_id (tasks (updateTask i updates s) ! n) =
           (case id_u updates of None \<Rightarrow> task_id (tasks s ! n) | Some v \<Rightarrow> v)
   \<and> createdAt (tasks (updateTask i updates s) ! n) =
           (case createdAt_u updates of None \<Rightarrow> createdAt (tasks s ! n) | Some v \<Rightarrow> v)
   \<and> title (tasks (updateTask i updates s) ! n) =
           (case title_u updates of None \<Rightarrow> title (tasks s ! n) | Some v \<Rightarrow> v)
   \<and> description (tasks (updateTask i updates s) ! n) =
           (case description_u updates of None \<Rightarrow> description (tasks s ! n) | Some v \<Rightarrow> v)
   \<and> completed (tasks (updateTask i updates s) ! n) =
           (case completed_u updates of None \<Rightarrow> completed (tasks s ! n) | Some v \<Rightarrow> v)
   \<and> priority (tasks (updateTask i updates s) ! n) =
           (case priority_u updates of None \<Rightarrow> priority (tasks s ! n) | Some v \<Rightarrow> v)
   \<and> dueDate (tasks (updateTask i updates s) ! n) =
           (case dueDate_u updates of None \<Rightarrow> dueDate (tasks s ! n) | Some v \<Rightarrow> v)"
proof -
  have n: "n < length (tasks_signal s)" and i: "task_id (tasks_signal s ! n) = i"
    using assms by (simp_all add: tasks_def)
  have "tasks (updateTask i updates s) ! n = merge_task (tasks_signal s ! n) updates"
    using updateTask_nth [OF n] i by simp
  then show ?thesis
    by (simp add: merge_task_def tasks_def split: option.splits)
qed

theorem updateTask_fields_witness:
  "title (tasks (updateTask ''1'' (no_updates\<lparr>title_u := Some ''X''\<rparr>) (initial 3 4 5)) ! 0) = ''X''
   \<and> task_id (tasks (updateTask ''1'' (no_updates\<lparr>title_u := Some ''X''\<rparr>) (initial 3 4 5)) ! 0) = ''1''
   \<and> createdAt (tasks (updateTask ''1'' (no_updates\<lparr>title_u := Some ''X''\<rparr>) (initial 3 4 5)) ! 0) = 3
   \<and> description (tasks (updateTask ''1'' (no_updates\<lparr>title_u := Some ''X''\<rparr>) (initial 3 4 5)) ! 0)
       = ''Understand the new signals API''
   \<and> completed (tasks (updateTask ''1'' (no_updates\<lparr>title_u := Some ''X''\<rparr>) (initial 3 4 5)) ! 0) = False
   \<and> priority (tasks (updateTask ''1'' (no_updates\<lparr>title_u := Some ''X''\<rparr>) (initial 3 4 5)) ! 0) = HIGH
   \<and> dueDate (tasks (updateTask ''1'' (no_updates\<lparr>title_u := Some ''X''\<rparr>) (initial 3 4 5)) ! 0)
       = Some 604800004"
  using updateTask_fields [of 0 "initial 3 4 5" "''1''" "no_updates\<lparr>title_u := Some ''X''\<rparr>"]
  by (simp add: initial_def tasks_def no_updates_def)

text \<open>
  Claim C1 as the specification words it fails: a partial record that carries \<open>id\<close> and
  \<open>createdAt\<close> changes both fields of the matching task. Here the first seeded task,
  created at time 3 with id 1, comes out with id 9 and creation time 77.
\<close>

theorem updateTask_id_counterexample:
  "task_id (tasks (initial 3 4 5) ! 0) = ''1''
   \<and> createdAt (tasks (initial 3 4 5) ! 0) = 3
   \<and> task_id (tasks (updateTask ''1'' (no_updates\<lparr>id_u := Some ''9'', createdAt_u := Some 77\<rparr>)
        (initial 3 4 5)) ! 0) = ''9''
   \<and> createdAt (tasks (updateTask ''1'' (no_updates\<lparr>id_u := Some ''9'', createdAt_u := Some 77\<rparr>)
        (initial 3 4 5)) ! 0) = 77"
  by (simp add: initial_def tasks_def updateTask_def merge_task_def no_updates_def)

section \<open>What the operations leave alone\<close>

text \<open>
  Claim C10. For any store and any id, held or not: \<open>updateTask\<close> and \<open>toggleTask\<close> keep the
  length of the task sequence; the task at each position is the prior task at that
  position, merged with the partial record (or with its flag flipped) when its id is the
  argument and exactly the prior task otherwise. \<open>deleteTask\<close> returns a subsequence of the
  prior sequence, and the tasks whose id differs from the argument are the same, in the same
  order, before and after; none of them is dropped. The filter is kept by all three.
\<close>

theorem operations_frame:
  "length (tasks (updateTask i updates s)) = length (tasks s)
   \<and> length (tasks (toggleTask i s)) = length (tasks s)
   \<and> (\<forall>n < length (tasks s).
        tasks (updateTask i updates s) ! n =
          (if task_id (tasks s ! n) = i then merge_task (tasks s ! n) updates else tasks s ! n)
        \<and> tasks (toggleTask i s) ! n =
          (if task_id (tasks s ! n) = i then (tasks s ! n)\<lparr>completed := \<not> completed (tasks s ! n)\<rparr>
           else tasks s ! n))
   \<and> subseq (tasks (deleteTask i s)) (tasks s)
   \<and> filter (\<lambda>t. task_id t \<noteq> i) (tasks (deleteTask i s)) = filter (\<lambda>t. task_id t \<noteq> i) (tasks s)
   \<and> (\<forall>t \<in> set (tasks s). task_id t \<noteq> i \<longrightarrow> t \<in> set (tasks (deleteTask i s)))
   \<and> getFilter (updateTask i updates s) = getFilter s
   \<and> getFilter (toggleTask i s) = getFilter s
   \<and> getFilter (deleteTask i s) = getFilter s"
proof -
  have len: "length (tasks (updateTask i updates s)) = length (tasks s)"
    "length (tasks (toggleTask i s)) = length (tasks s)"
    by (simp_all add: tasks_def updateTask_def toggleTask_def)
  have pos: "\<forall>n < length (tasks s).
        tasks (updateTask i updates s) ! n =
          (if task_id (tasks s ! n) = i then merge_task (tasks s ! n) updates else tasks s ! n)
        \<and> tasks (toggleTask i s) ! n =
          (if task_id (tasks s ! n) = i then (tasks s ! n)\<lparr>completed := \<not> completed (tasks s ! n)\<rparr>
           else tasks s ! n)"
    using updateTask_nth [of _ s i updates] toggleTask_nth [of _ s i]
    by (simp add: tasks_def)
  have del: "subseq (tasks (deleteTask i s)) (tasks s)"
    "filter (\<lambda>t. task_id t \<noteq> i) (tasks (deleteTask i s)) = filter (\<lambda>t. task_id t \<noteq> i) (tasks s)"
    "\<forall>t \<in> set (tasks s). task_id t \<noteq> i \<longrightarrow> t \<in> set (tasks (deleteTask i s))"
    by (simp_all add: tasks_def deleteTask_def)
  have flt: "getFilter (updateTask i updates s) = getFilter s"
    "getFilter (toggleTask i s) = getFilter s"
    "getFilter (deleteTask i s) = getFilter s"
    by (simp_all add: getFilter_def updateTask_def toggleTask_def deleteTask_def)
  from len pos del flt show ?thesis by blast
qed

theorem operations_frame_witness:
  "tasks (updateTask ''1'' (no_updates\<lparr>title_u := Some ''X''\<rparr>) (initial 3 4 5)) ! 1
     = tasks (initial 3 4 5) ! 1
   \<and> tasks (toggleTask ''1'' (initial 3 4 5)) ! 1 = tasks (initial 3 4 5) ! 1
   \<and> tasks (initial 3 4 5) ! 1 \<in> set (tasks (deleteTask ''1'' (initial 3 4 5)))"
  using operations_frame [of "''1''" "no_updates\<lparr>title_u := Some ''X''\<rparr>" "initial 3 4 5"]
  by (simp add: initial_def tasks_def)

section \<open>Toggling and updating\<close>

lemma merge_completed_only:
  "merge_task t (no_updates\<lparr>completed_u := Some b\<rparr>) = t\<lparr>completed := b\<rparr>"
  by (simp add: merge_task_def no_updates_def)

lemma toggle_eq_set_iff:
  "t\<lparr>completed := \<not> completed t\<rparr> = t\<lparr>completed := b\<rparr> \<longleftrightarrow> completed t = (\<not> b)" for t :: Task
proof
  assume "t\<lparr>completed := \<not> completed t\<rparr> = t\<lparr>completed := b\<rparr>"
  then have "completed (t\<lparr>completed := \<not> completed t\<rparr>) = completed (t\<lparr>completed := b\<rparr>)"
    by simp
  then show "completed t = (\<not> b)" by auto
next
  assume "completed t = (\<not> b)"
  then show "t\<lparr>completed := \<not> completed t\<rparr> = t\<lparr>completed := b\<rparr>" by simp
qed

lemma tasks_signal_update_eq:
  "s\<lparr>tasks_signal := xs\<rparr> = s\<lparr>tasks_signal := ys\<rparr> \<longleftrightarrow> xs = ys" for s :: TaskService
proof
  assume "s\<lparr>tasks_signal := xs\<rparr> = s\<lparr>tasks_signal := ys\<rparr>"
  then have "tasks_signal (s\<lparr>tasks_signal := xs\<rparr>) = tasks_signal (s\<lparr>tasks_signal := ys\<rparr>)"
    by simp
  then show "xs = ys" by simp
qed simp

lemma toggleTask_updateTask_iff:
  "toggleTask i s = updateTask i (no_updates\<lparr>completed_u := Some b\<rparr>) s
   \<longleftrightarrow> (\<forall>t \<in> set (tasks s). task_id t = i \<longrightarrow> completed t = (\<not> b))"
proof -
  have "toggleTask i s = updateTask i (no_updates\<lparr>completed_u := Some b\<rparr>) s
    \<longleftrightarrow> (\<forall>t \<in> set (tasks_signal s).
          (if task_id t = i then t\<lparr>completed := \<not> completed t\<rparr> else t) =
          (if task_id t = i then t\<lparr>completed := b\<rparr> else t))"
    by (simp add: toggleTask_def updateTask_def tasks_signal_update_eq merge_completed_only)
  also have "\<dots> \<longleftrightarrow> (\<forall>t \<in> set (tasks_signal s). task_id t = i \<longrightarrow> completed t = (\<not> b))"
    using toggle_eq_set_iff by (intro ball_cong refl) auto
  finally show ?thesis by (simp add: tasks_def)
qed

lemma at_most_one_member:
  assumes "length ys \<le> 1" and "a \<in> set ys" and "b \<in> set ys"
  shows "a = b"
proof (cases ys)
  case Nil
  with assms show ?thesis by simp
next
  case (Cons y zs)
  with assms have "zs = []" by simp
  with Cons assms show ?thesis by simp
qed

text \<open>
  Claim C6. In a store where at most one task holds the id: when a task \<open>t\<close> holds it,
  \<open>toggleTask\<close> gives the same store as \<open>updateTask\<close> with the partial record
  \<open>{ completed: b }\<close>, \<open>b\<close> the negation of the flag \<open>t\<close> holds; when no task holds it, both
  operations (the update with any \<open>b\<close>) return the store unchanged.
\<close>

theorem toggleTask_as_updateTask:
  assumes "length (filter (\<lambda>t. task_id t = i) (tasks s)) \<le> 1"
  shows "case find (\<lambda>t. task_id t = i) (tasks s) of
           Some t \<Rightarrow>
             toggleTask i s = updateTask i (no_updates\<lparr>completed_u := Some (\<not> completed t)\<rparr>) s
         | None \<Rightarrow>
             toggleTask i s = s \<and> updateTask i (no_updates\<lparr>completed_u := Some b\<rparr>) s = s"
proof (cases "find (\<lambda>t. task_id t = i) (tasks s)")
  case None
  then have absent: "\<forall>t \<in> set (tasks_signal s). task_id t \<noteq> i"
    by (auto simp: find_None_iff tasks_def)
  have "toggleTask i s = s"
    by (simp add: toggleTask_def map_unknown_id [OF absent])
  moreover have "updateTask i (no_updates\<lparr>completed_u := Some b\<rparr>) s = s"
    by (simp add: updateTask_def map_unknown_id [OF absent])
  ultimately show ?thesis using None by simp
next
  case (Some t)
  then have t: "t \<in> set (filter (\<lambda>t. task_id t = i) (tasks s))"
    by (auto simp: find_Some_iff)
  have "\<forall>t' \<in> set (tasks s). task_id t' = i \<longrightarrow> completed t' = (\<not> (\<not> completed t))"
  proof (intro ballI impI)
    fix t'
    assume "t' \<in> set (tasks s)" and "task_id t' = i"
    then have "t' \<in> set (filter (\<lambda>t. task_id t = i) (tasks s))" by simp
    from at_most_one_member [OF assms this t] have "t' = t" .
    then show "completed t' = (\<not> (\<not> completed t))" by simp
  qed
  then have "toggleTask i s = updateTask i (no_updates\<lparr>completed_u := Some (\<not> completed t)\<rparr>) s"
    by (simp only: toggleTask_updateTask_iff)
  then show ?thesis using Some by simp
qed

theorem toggleTask_as_updateTask_witness:
  "toggleTask ''1'' (initial 3 4 5)
     = updateTask ''1'' (no_updates\<lparr>completed_u := Some True\<rparr>) (initial 3 4 5)
   \<and> toggleTask ''2'' (initial 3 4 5)
     = updateTask ''2'' (no_updates\<lparr>completed_u := Some False\<rparr>) (initial 3 4 5)
   \<and> toggleTask ''7'' (initial 3 4 5) = initial 3 4 5
   \<and> updateTask ''7'' (no_updates\<lparr>completed_u := Some True\<rparr>) (initial 3 4 5) = initial 3 4 5"
  using toggleTask_as_updateTask [of "''1''" "initial 3 4 5" True]
    toggleTask_as_updateTask [of "''2''" "initial 3 4 5" True]
    toggleTask_as_updateTask [of "''7''" "initial 3 4 5" True]
  by (simp add: initial_def tasks_def)

section \<open>Merging the filter\<close>

lemma updateFilters_append:
  "updateFilters (fs @ gs) s = updateFilters gs (updateFilters fs s)"
  by (induction fs arbitrary: s) simp_all

lemma updateFilters_keep_showCompleted:
  assumes "\<forall>g \<in> set gs. showCompleted_u g = None"
  shows "showCompleted (getFilter (updateFilters gs s)) = showCompleted (getFilter s)"
  using assms
  by (induction gs arbitrary: s) (simp_all add: getFilter_def updateFilter_def merge_filter_def)

lemma updateFilters_keep_priority:
  assumes "\<forall>g \<in> set gs. priority_fu g = None"
  shows "priority_f (getFilter (updateFilters gs s)) = priority_f (getFilter s)"
  using assms
  by (induction gs arbitrary: s) (simp_all add: getFilter_def updateFilter_def merge_filter_def)

lemma updateFilters_keep_searchTerm:
  assumes "\<forall>g \<in> set gs. searchTerm_u g = None"
  shows "searchTerm (getFilter (updateFilters gs s)) = searchTerm (getFilter s)"
  using assms
  by (induction gs arbitrary: s) (simp_all add: getFilter_def updateFilter_def merge_filter_def)

lemma updateFilter_fields:
  "showCompleted (getFilter (updateFilter f s)) =
     (case showCompleted_u f of None \<Rightarrow> showCompleted (getFilter s) | Some v \<Rightarrow> v)"
  "priority_f (getFilter (updateFilter f s)) =
     (case priority_fu f of None \<Rightarrow> priority_f (getFilter s) | Some v \<Rightarrow> v)"
  "searchTerm (getFilter (updateFilter f s)) =
     (case searchTerm_u f of None \<Rightarrow> searchTerm (getFilter s) | Some v \<Rightarrow> v)"
  by (simp_all add: getFilter_def updateFilter_def merge_filter_def split: option.splits)

text \<open>
  Claim C7. After \<open>updateFilter\<close> each field of the filter is the value the partial record
  supplies for it, and the prior value when the partial record does not name it; the tasks
  are not touched. In a run of \<open>updateFilter\<close> calls, a field set to \<open>v\<close> by one call still
  is \<open>v\<close> after any number of later calls that do not name that field, whatever the calls
  before did: this holds for each of the three fields, so in particular for calls that
  carry a single field each.
\<close>

theorem updateFilter_merges:
  "showCompleted (getFilter (updateFilter f s)) =
     (case showCompleted_u f of None \<Rightarrow> showCompleted (getFilter s) | Some v \<Rightarrow> v)
   \<and> priority_f (getFilter (updateFilter f s)) =
     (case priority_fu f of None \<Rightarrow> priority_f (getFilter s) | Some v \<Rightarrow> v)
   \<and> searchTerm (getFilter (updateFilter f s)) =
     (case searchTerm_u f of None \<Rightarrow> searchTerm (getFilter s) | Some v \<Rightarrow> v)
   \<and> tasks (updateFilter f s) = tasks s
   \<and> (showCompleted_u f = Some b \<and> (\<forall>g \<in> set gs. showCompleted_u g = None)
        \<longrightarrow> showCompleted (getFilter (updateFilters (fs @ f # gs) s)) = b)
   \<and> (priority_fu f = Some p \<and> (\<forall>g \<in> set gs. priority_fu g = None)
        \<longrightarrow> priority_f (getFilter (updateFilters (fs @ f # gs) s)) = p)
   \<and> (searchTerm_u f = Some w \<and> (\<forall>g \<in> set gs. searchTerm_u g = None)
        \<longrightarrow> searchTerm (getFilter (updateFilters (fs @ f # gs) s)) = w)"
proof -
  have run: "updateFilters (fs @ f # gs) s = updateFilters gs (updateFilter f (updateFilters fs s))"
    by (simp add: updateFilters_append)
  have a: "showCompleted_u f = Some b \<and> (\<forall>g \<in> set gs. showCompleted_u g = None)
        \<longrightarrow> showCompleted (getFilter (updateFilters (fs @ f # gs) s)) = b"
    unfolding run by (simp add: updateFilters_keep_showCompleted updateFilter_fields)
  have b: "priority_fu f = Some p \<and> (\<forall>g \<in> set gs. priority_fu g = None)
        \<longrightarrow> priority_f (getFilter (updateFilters (fs @ f # gs) s)) = p"
    unfolding run by (simp add: updateFilters_keep_priority updateFilter_fields)
  have c: "searchTerm_u f = Some w \<and> (\<forall>g \<in> set gs. searchTerm_u g = None)
        \<longrightarrow> searchTerm (getFilter (updateFilters (fs @ f # gs) s)) = w"
    unfolding run by (simp add: updateFilters_keep_searchTerm updateFilter_fields)
  have d: "tasks (updateFilter f s) = tasks s"
    by (simp add: tasks_def updateFilter_def)
  from a b c d updateFilter_fields [of f s] show ?thesis by blast
qed

theorem updateFilter_merges_witness:
  "getFilter (updateFilters
      [no_filter_updates\<lparr>priority_fu := Some (Some HIGH)\<rparr>,
       no_filter_updates\<lparr>showCompleted_u := Some False\<rparr>,
       no_filter_updates\<lparr>searchTerm_u := Some ''x''\<rparr>] (initial 3 4 5))
   = \<lparr>showCompleted = False, priority_f = Some HIGH, searchTerm = ''x''\<rparr>"
  using updateFilter_merges [of "no_filter_updates\<lparr>showCompleted_u := Some False\<rparr>"
      "initial 3 4 5" False "[no_filter_updates\<lparr>searchTerm_u := Some ''x''\<rparr>]"
      "[no_filter_updates\<lparr>priority_fu := Some (Some HIGH)\<rparr>]"]
  by (simp add: no_filter_updates_def initial_def updateFilter_def merge_filter_def getFilter_def)

text \<open>
  Claim C9. A partial record whose \<open>priority\<close> key is present with the value \<^verbatim>\<open>undefined\<close>
  leaves the filter without a priority constraint, whatever the constraint was, and then
  every task passes the priority clause of the filtered view. The task list component
  always passes the key, and passes \<^verbatim>\<open>undefined\<close> when its selection is \<^verbatim>\<open>null\<close>: its
  call clears the constraint, and with a priority selected sets it.
\<close>

theorem updateFilter_clears_priority:
  "priority_f (getFilter (updateFilter (f\<lparr>priority_fu := Some None\<rparr>) s)) = None
   \<and> matchesPriority (getFilter (updateFilter (f\<lparr>priority_fu := Some None\<rparr>) s)) t
   \<and> priority_f (getFilter (TaskListComponent_updateFilter term shown None s)) = None
   \<and> priority_f (getFilter (TaskListComponent_updateFilter term shown (Some p) s)) = Some p"
  by (simp add: getFilter_def updateFilter_def merge_filter_def matchesPriority_def
      TaskListComponent_updateFilter_def or_undefined_def not_priority_absent)

theorem updateFilter_clears_priority_witness:
  "priority_f (getFilter (updateFilter (no_filter_updates\<lparr>priority_fu := Some (Some HIGH)\<rparr>)
      (initial 3 4 5))) = Some HIGH
   \<and> priority_f (getFilter (updateFilter (no_filter_updates\<lparr>priority_fu := Some None\<rparr>)
      (updateFilter (no_filter_updates\<lparr>priority_fu := Some (Some HIGH)\<rparr>) (initial 3 4 5)))) = None"
  using updateFilter_clears_priority [of no_filter_updates
      "updateFilter (no_filter_updates\<lparr>priority_fu := Some (Some HIGH)\<rparr>) (initial 3 4 5)"]
  by (simp add: no_filter_updates_def initial_def updateFilter_def merge_filter_def getFilter_def)

section \<open>Uniqueness of ids\<close>

lemma ids_unique_initial: "ids_unique (initial now0 now1 now2)"
  by (simp add: ids_unique_def initial_def)

lemma ids_unique_addTask:
  assumes "ids_unique s" and "uuid \<notin> set (map task_id (tasks_signal s))"
  shows "ids_unique (addTask uuid now task s)"
  using assms by (simp add: ids_unique_def addTask_def newTask_def)

lemma merge_task_same_id:
  assumes "id_u updates = None \<or> id_u updates = Some (task_id t)"
  shows "task_id (merge_task t updates) = task_id t"
  using assms by (auto simp: merge_task_def)

lemma ids_updateTask:
  assumes "id_u updates = None \<or> id_u updates = Some i"
  shows "map task_id (tasks_signal (updateTask i updates s)) = map task_id (tasks_signal s)"
  using assms by (auto simp: updateTask_def merge_task_same_id)

lemma ids_toggleTask:
  "map task_id (tasks_signal (toggleTask i s)) = map task_id (tasks_signal s)"
  by (simp add: toggleTask_def)

lemma ids_unique_deleteTask:
  assumes "ids_unique s"
  shows "ids_unique (deleteTask i s)"
  using assms by (simp add: ids_unique_def deleteTask_def distinct_map_filter)

lemma ids_unique_perform:
  assumes "ids_unique s" and "keeps_ids s c"
  shows "ids_unique (perform c s)"
proof (cases c)
  case (AddTask uuid now task)
  with assms show ?thesis by (simp add: ids_unique_addTask)
next
  case (UpdateTask i updates)
  with assms show ?thesis by (simp add: ids_unique_def ids_updateTask)
next
  case (DeleteTask i)
  with assms show ?thesis by (simp add: ids_unique_deleteTask)
next
  case (ToggleTask i)
  with assms show ?thesis by (simp add: ids_unique_def ids_toggleTask)
next
  case (UpdateFilter f)
  with assms show ?thesis by (simp add: ids_unique_def updateFilter_def)
qed

lemma ids_unique_perform_all:
  assumes "ids_unique s" and "keeps_ids_all s cs"
  shows "ids_unique (perform_all cs s)"
  using assms
proof (induction cs arbitrary: s)
  case Nil
  then show ?case by simp
next
  case (Cons c cs)
  from Cons.prems have "ids_unique (perform c s)" and "keeps_ids_all (perform c s) cs"
    by (simp_all add: ids_unique_perform)
  then show ?case by (simp add: Cons.IH)
qed

text \<open>
  Claim C4, as the code has it. The seeded store has unique ids. Uniqueness is kept by
  \<open>addTask\<close> when the generated id is held by no task, by \<open>updateTask\<close> when the partial
  record has no \<open>id\<close> key (or repeats the id of the call), and by \<open>deleteTask\<close>,
  \<open>toggleTask\<close> and \<open>updateFilter\<close> always; so it holds after every run of such calls from
  the seeded store.
\<close>

theorem ids_unique_invariant:
  "ids_unique (initial now0 now1 now2)
   \<and> (ids_unique s \<and> keeps_ids s c \<longrightarrow> ids_unique (perform c s))
   \<and> (keeps_ids_all (initial now0 now1 now2) cs
        \<longrightarrow> ids_unique (perform_all cs (initial now0 now1 now2)))"
  using ids_unique_initial ids_unique_perform ids_unique_perform_all by blast

theorem ids_unique_invariant_witness:
  "keeps_ids_all (initial 3 4 5)
     [AddTask ''6f1c2a50-0b7e-4c1d-9a53-2f8e4d7b9c10'' 9
        \<lparr>title = ''Test Task'', description = ''Test Description'', completed = False,
         priority = LOW, dueDate = None\<rparr>,
      UpdateTask ''1'' (no_updates\<lparr>title_u := Some ''Updated Title''\<rparr>),
      ToggleTask ''2'',
      DeleteTask ''1'',
      UpdateFilter (no_filter_updates\<lparr>showCompleted_u := Some False\<rparr>)]
   \<and> ids_unique (perform_all
     [AddTask ''6f1c2a50-0b7e-4c1d-9a53-2f8e4d7b9c10'' 9
        \<lparr>title = ''Test Task'', description = ''Test Description'', completed = False,
         priority = LOW, dueDate = None\<rparr>,
      UpdateTask ''1'' (no_updates\<lparr>title_u := Some ''Updated Title''\<rparr>),
      ToggleTask ''2'',
      DeleteTask ''1'',
      UpdateFilter (no_filter_updates\<lparr>showCompleted_u := Some False\<rparr>)] (initial 3 4 5))"
  using ids_unique_invariant [of 3 4 5 "initial 3 4 5"
     "ToggleTask ''2''"
     "[AddTask ''6f1c2a50-0b7e-4c1d-9a53-2f8e4d7b9c10'' 9
        \<lparr>title = ''Test Task'', description = ''Test Description'', completed = False,
         priority = LOW, dueDate = None\<rparr>,
      UpdateTask ''1'' (no_updates\<lparr>title_u := Some ''Updated Title''\<rparr>),
      ToggleTask ''2'',
      DeleteTask ''1'',
      UpdateFilter (no_filter_updates\<lparr>showCompleted_u := Some False\<rparr>)]"]
  by (simp add: initial_def addTask_def newTask_def updateTask_def toggleTask_def
      deleteTask_def updateFilter_def merge_task_def no_updates_def)

text \<open>
  Claim C4 as worded, for \<open>updateTask\<close> with any partial record, fails: on the seeded store, whose ids
  are unique, \<open>updateTask 1 { id: 2 }\<close> gives the first task the id of the second.
\<close>

theorem ids_unique_counterexample:
  "ids_unique (initial 3 4 5)
   \<and> \<not> ids_unique (updateTask ''1'' (no_updates\<lparr>id_u := Some ''2''\<rparr>) (initial 3 4 5))
   \<and> map task_id (tasks (updateTask ''1'' (no_updates\<lparr>id_u := Some ''2''\<rparr>) (initial 3 4 5)))
       = [''2'', ''2'']"
  by (simp add: ids_unique_def initial_def tasks_def updateTask_def merge_task_def no_updates_def)

section \<open>Runs of addTask on the seeded store\<close>

lemma addTasks_tasks:
  "tasks_signal (addTasks cs s) = tasks_signal s @ map (\<lambda>(uuid, now, task). newTask uuid now task) cs"
proof (induction cs arbitrary: s)
  case Nil
  then show ?case by simp
next
  case (Cons c cs)
  obtain uuid now task where c: "c = (uuid, now, task)" by (cases c)
  show ?case by (simp add: c Cons.IH addTask_def)
qed

lemma new_ids: "map task_id (map (\<lambda>(uuid, now, task). newTask uuid now task) cs) = map fst cs"
  by (induction cs) (auto simp: newTask_def)

lemma digit_value_hex_digit:
  assumes "d < 16"
  shows "digit_value (hex_digit d) = d"
proof -
  from assms have "d \<in> {0,1,2,3,4,5,6,7,8,9,10,11,12,13,14,15}"
    by (simp only: insert_iff empty_iff) arith
  then show ?thesis
    by (auto simp: hex_digit_def digit_value_def)
qed

lemma hex_value_snoc: "hex_value (cs @ [c]) = 16 * hex_value cs + digit_value c"
  by (simp add: hex_value_def)

lemma hex_value_hex: "hex_value (hex n) = n"
proof (induction n rule: hex.induct)
  case (1 n)
  show ?case
  proof (cases "n < 16")
    case True
    then show ?thesis
      by (simp add: hex.simps [of n] hex_value_def digit_value_hex_digit)
  next
    case False
    then show ?thesis
      using "1.IH" by (simp add: hex.simps [of n] hex_value_snoc digit_value_hex_digit)
  qed
qed

lemma hex_value_zeros: "hex_value (replicate m (CHR ''0'') @ cs) = hex_value cs"
proof -
  have "foldl (\<lambda>a c. 16 * a + digit_value c) 0 (replicate m (CHR ''0'')) = 0"
    by (induction m) (simp_all add: digit_value_def)
  then show ?thesis by (simp add: hex_value_def)
qed

lemma hex_value_randomUUID: "hex_value (randomUUID k) = k"
  by (simp add: randomUUID_def hex_value_zeros hex_value_hex)

lemma inj_randomUUID: "inj randomUUID"
  by (rule inj_on_inverseI [of _ hex_value]) (simp add: hex_value_randomUUID)

lemma length_randomUUID: "32 \<le> length (randomUUID k)"
  by (simp add: randomUUID_def)

lemma randomUUID_not_seed:
  "randomUUID k \<noteq> ''1''" "randomUUID k \<noteq> ''2''" "''1'' \<noteq> randomUUID k" "''2'' \<noteq> randomUUID k"
  using length_randomUUID [of k] by (auto dest: arg_cong [where f = length])

lemma addTasks_session_addTasks:
  "addTasks_session k ds s =
     addTasks (map (\<lambda>(j, now, task). (randomUUID j, now, task)) (zip [k..<k + length ds] ds)) s"
proof (induction ds arbitrary: k s)
  case Nil
  then show ?case by simp
next
  case (Cons d ds)
  obtain now task where d: "d = (now, task)" by (cases d)
  have "[k..<k + length (d # ds)] = k # [Suc k..<Suc k + length ds]"
    by (subst upt_rec) simp
  then show ?case by (simp add: d Cons.IH)
qed

lemma drawn_ids:
  "map fst (map (\<lambda>(j, now, task). (randomUUID j, now, task)) (zip [k..<k + length ds] ds))
     = map randomUUID [k..<k + length ds]"
proof -
  have fst_drawn:
    "map fst (map (\<lambda>(j, now, task). (randomUUID j, now, task)) zs) = map randomUUID (map fst zs)"
    for zs :: "(nat \<times> 'a \<times> 'b) list"
    by (induction zs) auto
  have "map fst (zip [k..<k + length ds] ds) = [k..<k + length ds]"
    by (rule map_fst_zip) simp
  then show ?thesis by (simp only: fst_drawn)
qed

lemma session_ids:
  "map task_id (tasks_signal (addTasks_session k ds s))
     = map task_id (tasks_signal s) @ map randomUUID [k..<k + length ds]"
  by (simp only: addTasks_session_addTasks addTasks_tasks map_append new_ids drawn_ids)

lemma distinct_drawn: "distinct (map randomUUID [k..<k + n])"
  by (simp add: distinct_map inj_on_subset [OF inj_randomUUID])

text \<open>
  Claim C8, as the code has it. A run of \<open>n\<close> calls of \<open>addTask\<close> raises \<open>totalCount\<close> by \<open>n\<close>;
  the store created at session start already holds the two seeded tasks, so after the run
  \<open>totalCount\<close> is \<open>2 + n\<close>. The ids of the added tasks are, in order, the values that
  \<^verbatim>\<open>crypto.randomUUID()\<close> returned. With the generator of fresh ids, the ids assigned
  across the adds are pairwise distinct, and distinct from the ids of the seeded tasks.
\<close>

theorem addTasks_count:
  "totalCount (addTasks cs s) = totalCount s + length cs
   \<and> totalCount (addTasks cs (initial now0 now1 now2)) = 2 + length cs
   \<and> map task_id (drop 2 (tasks (addTasks cs (initial now0 now1 now2)))) = map fst cs
   \<and> totalCount (addTasks_session k ds (initial now0 now1 now2)) = 2 + length ds
   \<and> map task_id (drop 2 (tasks (addTasks_session k ds (initial now0 now1 now2))))
       = map randomUUID [k..<k + length ds]
   \<and> distinct (map task_id (drop 2 (tasks (addTasks_session k ds (initial now0 now1 now2)))))
   \<and> ids_unique (addTasks_session k ds (initial now0 now1 now2))"
proof -
  have a: "totalCount (addTasks cs s) = totalCount s + length cs" for cs s
    by (simp add: totalCount_def addTasks_tasks)
  have b: "totalCount (initial now0 now1 now2) = 2"
    by (simp add: totalCount_def initial_def)
  have "drop 2 (tasks (addTasks cs (initial now0 now1 now2)))
      = map (\<lambda>(uuid, now, task). newTask uuid now task) cs"
    by (simp add: tasks_def addTasks_tasks initial_def)
  then have c: "map task_id (drop 2 (tasks (addTasks cs (initial now0 now1 now2)))) = map fst cs"
    by (simp only: new_ids)
  have d: "totalCount (addTasks_session k ds (initial now0 now1 now2)) = 2 + length ds"
    by (simp add: addTasks_session_addTasks a b)
  have ids: "map task_id (tasks (addTasks_session k ds (initial now0 now1 now2)))
      = [''1'', ''2''] @ map randomUUID [k..<k + length ds]"
    by (simp add: tasks_def session_ids) (simp add: initial_def)
  have e: "map task_id (drop 2 (tasks (addTasks_session k ds (initial now0 now1 now2))))
      = map randomUUID [k..<k + length ds]"
    using ids by (simp add: drop_map [symmetric])
  have f: "distinct (map task_id (drop 2 (tasks (addTasks_session k ds (initial now0 now1 now2)))))"
    by (simp only: e distinct_drawn)
  have g: "ids_unique (addTasks_session k ds (initial now0 now1 now2))"
    unfolding ids_unique_def using ids distinct_drawn [of k "length ds"]
    by (auto simp: tasks_def randomUUID_not_seed)
  show ?thesis using a [of cs s] a [of cs "initial now0 now1 now2"] b c d e f g by simp
qed

theorem addTasks_count_witness:
  "totalCount (addTasks_session 0
      [(9, \<lparr>title = ''Test Task'', description = ''Test Description'', completed = False,
         priority = LOW, dueDate = None\<rparr>),
       (10, \<lparr>title = ''Completed Task'', description = [], completed = True,
         priority = LOW, dueDate = None\<rparr>)] (initial 3 4 5)) = 4
   \<and> map task_id (tasks (addTasks_session 0
      [(9, \<lparr>title = ''Test Task'', description = ''Test Description'', completed = False,
         priority = LOW, dueDate = None\<rparr>),
       (10, \<lparr>title = ''Completed Task'', description = [], completed = True,
         priority = LOW, dueDate = None\<rparr>)] (initial 3 4 5)))
     = [''1'', ''2'', ''00000000000000000000000000000000'', ''00000000000000000000000000000001'']
   \<and> ids_unique (addTasks_session 0
      [(9, \<lparr>title = ''Test Task'', description = ''Test Description'', completed = False,
         priority = LOW, dueDate = None\<rparr>),
       (10, \<lparr>title = ''Completed Task'', description = [], completed = True,
         priority = LOW, dueDate = None\<rparr>)] (initial 3 4 5))"
  using addTasks_count [of "[]" "initial 3 4 5" 3 4 5 0
      "[(9, \<lparr>title = ''Test Task'', description = ''Test Description'', completed = False,
         priority = LOW, dueDate = None\<rparr>),
       (10, \<lparr>title = ''Completed Task'', description = [], completed = True,
         priority = LOW, dueDate = None\<rparr>)]"]
  by (simp add: tasks_def addTask_def newTask_def initial_def randomUUID_def hex.simps
      hex_digit_def numeral_eq_Suc)

text \<open>
  Claim C8 as worded fails: \<open>totalCount\<close> is not the number of adds on the store as created;
  after one \<open>addTask\<close> the count is 3, the two seeded tasks and the added one.
\<close>

theorem addTasks_count_counterexample:
  "totalCount (addTasks
      [(''6f1c2a50-0b7e-4c1d-9a53-2f8e4d7b9c10'', 9,
        \<lparr>title = ''Test Task'', description = ''Test Description'', completed = False,
         priority = LOW, dueDate = None\<rparr>)] (initial 3 4 5)) = 3
   \<and> totalCount (addTasks
      [(''6f1c2a50-0b7e-4c1d-9a53-2f8e4d7b9c10'', 9,
        \<lparr>title = ''Test Task'', description = ''Test Description'', completed = False,
         priority = LOW, dueDate = None\<rparr>)] (initial 3 4 5))
     \<noteq> length [(''6f1c2a50-0b7e-4c1d-9a53-2f8e4d7b9c10'', 9 :: date,
        \<lparr>title = ''Test Task'', description = ''Test Description'', completed = False,
         priority = LOW, dueDate = None :: date option\<rparr>)]
   \<and> length [(''6f1c2a50-0b7e-4c1d-9a53-2f8e4d7b9c10'', 9 :: date,
        \<lparr>title = ''Test Task'', description = ''Test Description'', completed = False,
         priority = LOW, dueDate = None :: date option\<rparr>)] = 1"
  by (simp add: totalCount_def addTask_def initial_def)

end
